theory Spec2Isabelle
  imports Complex_Main
begin

section \<open>Python errors and numpy primitives\<close>

text \<open>
  The exceptions that the modelled functions raise. A function that can raise returns
  \<open>error + 'a\<close>, with \<open>Inl\<close> carrying the exception. Array entries are modelled as
  real numbers: floating-point arithmetic is taken to be exact, with no NaN or
  infinity. Where the code computes in the dtype of an array that may hold integers,
  the dtype is carried along and the integer arithmetic wraps around.
\<close>

datatype error = ValueError | KeyError | IndexError

text \<open>
  \<^verbatim>\<open>np.searchsorted(a, v)\<close> with the default \<^verbatim>\<open>side='left'\<close> on an ascending array
  \<open>a\<close>: the first index \<open>i\<close> with \<open>v \<le> a[i]\<close>, or \<open>len(a)\<close> if there is none.
\<close>

definition searchsorted :: "real list \<Rightarrow> real \<Rightarrow> nat" where
  "searchsorted a v = length (takeWhile (\<lambda>u. u < v) a)"

text \<open>\<^verbatim>\<open>np.linspace(0, 1, num)\<close>.\<close>

definition linspace01 :: "nat \<Rightarrow> real list" where
  "linspace01 num =
     (if num = 1 then [0] else map (\<lambda>i. real i / real (num - 1)) [0..<num])"


text \<open>\<^verbatim>\<open>a.min()\<close> and \<^verbatim>\<open>a.max()\<close> of a non-empty array.\<close>

definition amin :: "real list \<Rightarrow> real" where
  "amin a = fold min (tl a) (hd a)"

definition amax :: "real list \<Rightarrow> real" where
  "amax a = fold max (tl a) (hd a)"

text \<open>\<^verbatim>\<open>a[1:] - a[:-1]\<close>, the successive differences.\<close>

definition successive_diffs :: "real list \<Rightarrow> real list" where
  "successive_diffs a = map (\<lambda>(u, v). u - v) (zip (tl a) (butlast a))"

text \<open>\<^verbatim>\<open>(a[1:] + a[:-1])/2\<close>, the centers of successive entries.\<close>

definition midpoints :: "real list \<Rightarrow> real list" where
  "midpoints a = map (\<lambda>(u, v). (u + v) / 2) (zip (tl a) (butlast a))"

text \<open>
  The dtype of a numpy array: a floating-point type, or an integer type given by its
  signedness and its width in bits (\<open>IntType True 64\<close> is \<open>int64\<close>, \<open>IntType False 8\<close> is
  \<open>uint8\<close>). An array is modelled by its dtype and its entries as real numbers; the
  entries of an integer array are whole numbers in the range of its dtype.
  Floating-point entries are finite and their arithmetic is exact; integer arithmetic
  wraps around as numpy's does.
\<close>

datatype dtype = FloatType | IntType bool nat

definition wrap_int :: "bool \<Rightarrow> nat \<Rightarrow> int \<Rightarrow> int" where
  "wrap_int signed bits n =
     (if signed then (n + 2 ^ (bits - 1)) mod 2 ^ bits - 2 ^ (bits - 1) else n mod 2 ^ bits)"

text \<open>The difference and the sum of two entries of an array of the given dtype.\<close>

definition np_subtract :: "dtype \<Rightarrow> real \<Rightarrow> real \<Rightarrow> real" where
  "np_subtract dt u v =
     (case dt of
        FloatType \<Rightarrow> u - v
      | IntType signed bits \<Rightarrow> real_of_int (wrap_int signed bits (\<lfloor>u\<rfloor> - \<lfloor>v\<rfloor>)))"

definition np_add :: "dtype \<Rightarrow> real \<Rightarrow> real \<Rightarrow> real" where
  "np_add dt u v =
     (case dt of
        FloatType \<Rightarrow> u + v
      | IntType signed bits \<Rightarrow> real_of_int (wrap_int signed bits (\<lfloor>u\<rfloor> + \<lfloor>v\<rfloor>)))"

text \<open>
  \<^verbatim>\<open>a[1:] - a[:-1]\<close> and \<^verbatim>\<open>(a[1:] + a[:-1])/2\<close> computed in the dtype of \<open>a\<close>; the
  division by 2 is a true division and gives floats.
\<close>

definition dtype_diffs :: "dtype \<Rightarrow> real list \<Rightarrow> real list" where
  "dtype_diffs dt a = map (\<lambda>(u, v). np_subtract dt u v) (zip (tl a) (butlast a))"

definition dtype_midpoints :: "dtype \<Rightarrow> real list \<Rightarrow> real list" where
  "dtype_midpoints dt a = map (\<lambda>(u, v). np_add dt u v / 2) (zip (tl a) (butlast a))"

section \<open>colortools.py: the normalizers\<close>

text \<open>The fields that \<^verbatim>\<open>matplotlib.colors.Normalize\<close> keeps.\<close>

record Normalize =
  vmin :: real
  vmax :: real
  clip :: bool

subsection \<open>BinNorm\<close>

record BinNorm = Normalize +
  bn_norm :: "real \<Rightarrow> real"
  bn_x_b :: "real list"
  bn_y :: "real list"
  boundaries :: "real list"
  bn_N :: nat

text \<open>
  \<^verbatim>\<open>BinNorm.__init__(levels, norm, clip, step, extend)\<close> on a one-dimensional array
  of levels with dtype \<open>dt\<close>. The fields \<open>bn_norm\<close>, \<open>bn_x_b\<close>, \<open>bn_y\<close> and \<open>bn_N\<close> are the
  source's \<open>_norm\<close>, \<open>_x_b\<close>, \<open>_y\<close> and \<open>N\<close>. \<open>extend'\<close> is \<open>None\<close> or a string, and
  \<^verbatim>\<open>extend or 'both'\<close> replaces \<open>None\<close> and the empty string (\<open>ext\<close> is the value after
  that line). \<open>norm'\<close> is \<open>None\<close>, which leaves the array and its dtype as they are, or a
  transform applied to every entry, which gives a float array.

  The successive differences and the level centers are computed in the dtype of the
  array, so they wrap around for an integer array. The source then divides by
  \<open>x_m.max() - x_m.min()\<close> and keeps the finite entries (\<^verbatim>\<open>y[np.isfinite(y)]\<close>). Over
  the reals a quotient is finite exactly when the denominator is not zero, so a zero
  denominator leaves no entry and any other denominator leaves all of them.
\<close>

definition BinNorm_init ::
  "dtype \<Rightarrow> real list \<Rightarrow> (real \<Rightarrow> real) option \<Rightarrow> bool \<Rightarrow> real \<Rightarrow> string option \<Rightarrow>
   error + BinNorm" where
  "BinNorm_init dt levels norm' clip' step extend' =
     (let ext = (case extend' of None \<Rightarrow> ''both''
                    | Some s \<Rightarrow> if s = [] then ''both'' else s)
      in if length levels \<le> 1 then Inl ValueError
         else if list_ex (\<lambda>d. d \<le> 0) (dtype_diffs dt levels) then Inl ValueError
         else if ext \<notin> set [''both'', ''min'', ''max'', ''neither''] then Inl ValueError
         else
           let nrm = (case norm' of None \<Rightarrow> (\<lambda>x. x) | Some f \<Rightarrow> f);
               x_b = map nrm levels;
               x_b_dtype = (case norm' of None \<Rightarrow> dt | Some f \<Rightarrow> FloatType);
               x_m = dtype_midpoints x_b_dtype x_b;
               y = (if amax x_m - amin x_m = 0 then []
                    else map (\<lambda>m. (m - amin x_m) / (amax x_m - amin x_m)) x_m);
               offset = 0;
               scale = 1;
               eps = step / real (length levels);
               offset = (if ext \<in> set [''min'', ''both''] then eps else offset);
               scale = (if ext \<in> set [''min'', ''both''] then scale - eps else scale);
               scale = (if ext \<in> set [''max'', ''both''] then scale - eps else scale);
               y = [0] @ map (\<lambda>v. offset + scale * v) y @ [1]
           in Inr \<lparr>vmin = amin levels, vmax = amax levels, clip = clip',
                    bn_norm = nrm, bn_x_b = x_b, bn_y = y,
                    boundaries = levels, bn_N = length levels\<rparr>)"

text \<open>
  \<^verbatim>\<open>BinNorm.__call__\<close> at a scalar query: the bin of the query, found with
  \<open>searchsorted\<close>, indexes \<open>_y\<close>; an index past the end of \<open>_y\<close> raises IndexError.
\<close>

definition BinNorm_call :: "BinNorm \<Rightarrow> real \<Rightarrow> error + real" where
  "BinNorm_call self xq =
     (let xq = bn_norm self xq;
          i = searchsorted (bn_x_b self) xq
      in if i < length (bn_y self) then Inr (bn_y self ! i) else Inl IndexError)"

subsection \<open>LinearSegmentedNorm\<close>

record LinearSegmentedNorm = Normalize +
  ls_x :: "real list"
  ls_y :: "real list"

text \<open>\<^verbatim>\<open>LinearSegmentedNorm.__init__(levels, clip)\<close>; \<open>ls_x\<close> and \<open>ls_y\<close> are \<open>_x\<close> and \<open>_y\<close>.\<close>

definition LinearSegmentedNorm_init :: "real list \<Rightarrow> bool \<Rightarrow> error + LinearSegmentedNorm" where
  "LinearSegmentedNorm_init levels clip' =
     (if length levels \<le> 1 then Inl ValueError
      else if list_ex (\<lambda>d. d \<le> 0) (successive_diffs levels) then Inl ValueError
      else Inr \<lparr>vmin = amin levels, vmax = amax levels, clip = clip',
                 ls_x = levels, ls_y = linspace01 (length levels)\<rparr>)"

text \<open>
  \<^verbatim>\<open>LinearSegmentedNorm.__call__\<close> and \<^verbatim>\<open>LinearSegmentedNorm.inverse\<close> at a scalar
  query. An instance comes from \<open>__init__\<close>, so \<open>_x\<close> and \<open>_y\<close> have the same length of
  at least two and the indices \<open>ind - 1\<close> and \<open>ind\<close> are in range.
\<close>

definition LinearSegmentedNorm_call :: "LinearSegmentedNorm \<Rightarrow> real \<Rightarrow> real" where
  "LinearSegmentedNorm_call self xq =
     (let x = ls_x self;
          y = ls_y self;
          ind = searchsorted x xq;
          ind = (if ind = 0 then 1 else ind);
          ind = (if ind = length x then length x - 1 else ind);
          distance = (xq - x ! (ind - 1)) / (x ! ind - x ! (ind - 1));
          yq = distance * (y ! ind - y ! (ind - 1)) + y ! (ind - 1)
      in yq)"

definition LinearSegmentedNorm_inverse :: "LinearSegmentedNorm \<Rightarrow> real \<Rightarrow> real" where
  "LinearSegmentedNorm_inverse self yq =
     (let x = ls_x self;
          y = ls_y self;
          ind = searchsorted y yq;
          ind = (if ind = 0 then 1 else ind);
          ind = (if ind = length y then length y - 1 else ind);
          distance = (yq - y ! (ind - 1)) / (y ! ind - y ! (ind - 1));
          xq = distance * (x ! ind - x ! (ind - 1)) + x ! (ind - 1)
      in xq)"

subsection \<open>MidpointNorm\<close>

record MidpointNorm = Normalize +
  midpoint :: real

text \<open>
  \<^verbatim>\<open>MidpointNorm.__call__\<close> at a scalar query \<open>xq\<close> (the source maps the same
  computation over the entries of an array).
\<close>

definition MidpointNorm_call :: "MidpointNorm \<Rightarrow> real \<Rightarrow> error + real" where
  "MidpointNorm_call self xq =
     (if vmin self \<ge> midpoint self \<or> vmax self \<le> midpoint self then Inl ValueError
      else
        let x = [vmin self, midpoint self, vmax self];
            y = [0, 1 / 2, 1];
            ind = searchsorted x xq;
            ind = (if ind = 0 then 1 else ind);
            ind = (if ind = length x then length x - 1 else ind);
            distance = (xq - x ! (ind - 1)) / (x ! ind - x ! (ind - 1));
            yq = distance * (y ! ind - y ! (ind - 1)) + y ! (ind - 1)
        in Inr yq)"

subsection \<open>clip_colors\<close>

text \<open>
  \<^verbatim>\<open>clip_colors(colors, mask, gray, verbose)\<close> on a two-dimensional array given by its
  rows (\<open>mask_on\<close> is the source's \<open>mask\<close>). The result is the returned array together
  with the lines printed when \<open>verbose\<close> is set. Reading column \<open>i\<close> of the masks for the messages fails with
  IndexError when the array has fewer than three columns.
\<close>

definition column_any :: "bool list list \<Rightarrow> nat \<Rightarrow> bool" where
  "column_any m i = list_ex (\<lambda>row. row ! i) m"

definition channel_messages :: "string \<Rightarrow> bool list list \<Rightarrow> bool list list \<Rightarrow> string list" where
  "channel_messages message is_under is_over =
     concat (map (\<lambda>(i, name).
        (if column_any is_under i
         then [''Warning: '' @ message @ '' \"'' @ name @ ''\" channel (<0).''] else []) @
        (if column_any is_over i
         then [''Warning: '' @ message @ '' \"'' @ name @ ''\" channel (>1).''] else []))
      [(0, ''r''), (1, ''g''), (2, ''b'')])"

definition clip_colors ::
  "real list list \<Rightarrow> bool \<Rightarrow> real \<Rightarrow> bool \<Rightarrow> error + (real list list \<times> string list)" where
  "clip_colors colors mask_on gray verbose =
     (let message = (if mask_on then ''Invalid'' else ''Clipped'');
          is_under = map (map (\<lambda>c. c < 0)) colors;
          is_over = map (map (\<lambda>c. 1 < c)) colors;
          colors' =
            (if mask_on then map (map (\<lambda>c. if c < 0 \<or> 1 < c then gray else c)) colors
             else map (map (\<lambda>c. if 1 < c then 1 else if c < 0 then 0 else c)) colors)
      in if verbose then
           (if list_all (\<lambda>row. 3 \<le> length row) colors
            then Inr (colors', channel_messages message is_under is_over)
            else Inl IndexError)
         else Inr (colors', []))"

section \<open>colortools.py: merging colormaps\<close>

text \<open>
  The two kinds of colormap that \<^verbatim>\<open>merge_cmaps\<close> tells apart. A
  \<^verbatim>\<open>ListedColormap\<close> carries its colors, its name and its size \<open>N\<close>; for a
  \<^verbatim>\<open>LinearSegmentedColormap\<close> the segment data is kept abstract.
\<close>

datatype ('c, 's) colormap =
  ListedColormap (cm_colors: "'c list") (cm_name: string) (cm_N: nat)
| LinearSegmentedColormap 's

fun is_listed :: "('c, 's) colormap \<Rightarrow> bool" where
  "is_listed (ListedColormap _ _ _) = True"
| "is_listed (LinearSegmentedColormap _) = False"

text \<open>
  The \<^verbatim>\<open>ratios\<close> argument of \<^verbatim>\<open>merge_cmaps\<close>: a number (the default is 1), a
  Python list, or a numpy array.
\<close>

datatype ratios = RNumber real | RList "real list" | RArray "real list"

text \<open>
  \<^verbatim>\<open>ratios or 1\<close>: the truth value of a number, of a list, and of a numpy array (which
  is ambiguous, and raises ValueError, for an array of more than one entry).
\<close>

fun ratios_or_1 :: "ratios \<Rightarrow> error + ratios" where
  "ratios_or_1 (RNumber r) = Inr (if r = 0 then RNumber 1 else RNumber r)"
| "ratios_or_1 (RList rs) = Inr (if rs = [] then RNumber 1 else RList rs)"
| "ratios_or_1 (RArray rs) =
     (if rs = [] then Inr (RNumber 1)
      else if length rs = 1 then Inr (if hd rs = 0 then RNumber 1 else RArray rs)
      else Inl ValueError)"

text \<open>
  \<^verbatim>\<open>np.all(ratios == 1)\<close>. Comparing a Python list with the number 1 is the single
  value \<open>False\<close>; only a numpy array is compared entry by entry.
\<close>

fun np_all_eq_1 :: "ratios \<Rightarrow> bool" where
  "np_all_eq_1 (RNumber r) = (r = 1)"
| "np_all_eq_1 (RList rs) = False"
| "np_all_eq_1 (RArray rs) = list_all (\<lambda>r. r = 1) rs"

text \<open>
  \<^verbatim>\<open>merge_cmaps(*_cmaps, name, N, ratios)\<close> on colormap instances and without further
  keyword arguments, for which \<^verbatim>\<open>colormap(cmap, N=None)\<close> hands each instance back as it
  is. The branch that merges segment data is the parameter \<open>merge_segmentdata\<close>.
\<close>

definition merge_cmaps ::
  "(('c, 's) colormap list \<Rightarrow> string \<Rightarrow> nat \<Rightarrow> ratios \<Rightarrow> error + ('c, 's) colormap) \<Rightarrow>
   ('c, 's) colormap list \<Rightarrow> string \<Rightarrow> nat \<Rightarrow> ratios \<Rightarrow> error + ('c, 's) colormap" where
  "merge_cmaps merge_segmentdata cmaps name n ratios' =
     (if length cmaps \<le> 1 then Inl ValueError
      else case ratios_or_1 ratios' of
        Inl e \<Rightarrow> Inl e
      | Inr r \<Rightarrow>
          let r = (case r of RNumber _ \<Rightarrow> RList (replicate (length cmaps) 1) | _ \<Rightarrow> r)
          in if list_all is_listed cmaps then
               (if \<not> np_all_eq_1 r then Inl ValueError
                else let colors = concat (map cm_colors cmaps)
                     in Inr (ListedColormap colors name (length colors)))
             else if list_all (\<lambda>c. \<not> is_listed c) cmaps then merge_segmentdata cmaps name n r
             else Inl ValueError)"

section \<open>colortools.py: the colormap dictionary\<close>

text \<open>
  \<^verbatim>\<open>str.lower()\<close> on strings of one-byte characters: the letters \<open>A\<close> to \<open>Z\<close> move to
  \<open>a\<close> to \<open>z\<close>, every other character stays.
\<close>

definition lower_char :: "char \<Rightarrow> char" where
  "lower_char c =
     (let n = (of_char c :: nat) in if 65 \<le> n \<and> n \<le> 90 then char_of (n + 32) else c)"

definition lower :: "string \<Rightarrow> string" where
  "lower key = map lower_char key"

text \<open>The slices \<^verbatim>\<open>key[-2:]\<close> and \<^verbatim>\<open>key[:-2]\<close>, and \<^verbatim>\<open>name[a:b]\<close> with optional ends.\<close>

definition last2 :: "string \<Rightarrow> string" where
  "last2 key = drop (length key - 2) key"

definition drop_last2 :: "string \<Rightarrow> string" where
  "drop_last2 key = take (length key - 2) key"

definition py_slice :: "string \<Rightarrow> nat option \<Rightarrow> nat option \<Rightarrow> string" where
  "py_slice name a b =
     drop (case a of None \<Rightarrow> 0 | Some i \<Rightarrow> i)
          (take (case b of None \<Rightarrow> length name | Some j \<Rightarrow> j) name)"

text \<open>
  The table \<^verbatim>\<open>_cmap_parts\<close> of names with the indices that cut them into parts, and
  \<^verbatim>\<open>_cmap_mirrors\<close>, which pairs every name with its parts in reverse order.
\<close>

definition cmap_parts :: "(string \<times> nat option list) list" where
  "cmap_parts =
     [(''piyg'', [None, Some 2, None]),
      (''prgn'', [None, Some 1, Some 2, None]),
      (''brbg'', [None, Some 2, Some 3, None]),
      (''puor'', [None, Some 2, None]),
      (''rdgy'', [None, Some 2, None]),
      (''rdbu'', [None, Some 2, None]),
      (''rdylbu'', [None, Some 2, Some 4, None]),
      (''rdylgn'', [None, Some 2, Some 4, None]),
      (''coldhot'', [None, Some 4, None]),
      (''bwr'', [None, Some 1, Some 2, None]),
      (''icefire'', [None, Some 3, None]),
      (''negpos'', [None, Some 3, None]),
      (''bluered'', [None, Some 4, None]),
      (''purplepink'', [None, Some 4, None]),
      (''drywet'', [None, Some 3, None]),
      (''drierwetter'', [None, Some 5, None]),
      (''landsea'', [None, Some 4, None])]"

definition cmap_mirrors :: "(string \<times> string) list" where
  "cmap_mirrors =
     map (\<lambda>(name, idxs).
            (name, concat (rev (map (\<lambda>i. py_slice name (idxs ! i) (idxs ! (i + 1)))
                                  [0..<length idxs - 1]))))
         cmap_parts"

text \<open>
  A key handed to the dictionary is a string or some other object. The dictionary
  itself maps strings to values; \<open>reversed\<close> is the values' \<^verbatim>\<open>reversed()\<close> method,
  which gives \<open>None\<close> for a value without one (an AttributeError in the source).
\<close>

datatype pykey = Str string | NotStr nat

type_synonym 'v cmapdict = "string \<rightharpoonup> 'v"

text \<open>\<^verbatim>\<open>_CmapDict.__init__(kwargs)\<close>, with the items of \<open>kwargs\<close> in their order.\<close>

fun CmapDict_init_loop :: "(pykey \<times> 'v) list \<Rightarrow> 'v cmapdict \<Rightarrow> error + 'v cmapdict" where
  "CmapDict_init_loop [] kwargs_filtered = Inr kwargs_filtered"
| "CmapDict_init_loop ((NotStr _, _) # items) kwargs_filtered = Inl KeyError"
| "CmapDict_init_loop ((Str key, val) # items) kwargs_filtered =
     (if last2 key \<noteq> ''_r''
      then CmapDict_init_loop items (kwargs_filtered(lower key \<mapsto> val))
      else CmapDict_init_loop items kwargs_filtered)"

definition CmapDict_init :: "(pykey \<times> 'v) list \<Rightarrow> error + 'v cmapdict" where
  "CmapDict_init kwargs = CmapDict_init_loop kwargs Map.empty"

text \<open>
  The loop of \<^verbatim>\<open>_sanitize_key\<close> over the mirror pairs: \<^verbatim>\<open>mirror.index(key)\<close> is 0 or 1
  when the key is a member of the pair, and the other member becomes the mirror key;
  the loop does not stop at a match.

  In \<^verbatim>\<open>_sanitize_key\<close> the mirror key is looked for only when the key itself is not
  stored, and it replaces the key, flipping \<open>reverse\<close>, only when it is stored: the
  condition \<open>found\<close>. A key that is not a string raises ValueError.
\<close>

fun mirror_loop :: "(string \<times> string) list \<Rightarrow> string \<Rightarrow> string \<Rightarrow> string" where
  "mirror_loop [] key key_mirror = key_mirror"
| "mirror_loop ((a, b) # mirrors) key key_mirror =
     mirror_loop mirrors key (if a = key then b else if b = key then a else key_mirror)"

definition sanitize_key :: "'v cmapdict \<Rightarrow> pykey \<Rightarrow> error + string" where
  "sanitize_key self k =
     (case k of
        NotStr _ \<Rightarrow> Inl ValueError
      | Str key \<Rightarrow>
          let key = lower key;
              reverse = (last2 key = ''_r'');
              key = (if reverse then drop_last2 key else key);
              key_mirror = mirror_loop cmap_mirrors key key;
              found = (self key = None \<and> self key_mirror \<noteq> None);
              reverse = (if found then \<not> reverse else reverse);
              key = (if found then key_mirror else key)
          in Inr (if reverse then key @ ''_r'' else key))"

text \<open>\<^verbatim>\<open>_CmapDict._getitem(key)\<close>, the lookup without sanitization.\<close>

definition getitem_raw :: "('v \<Rightarrow> 'v option) \<Rightarrow> 'v cmapdict \<Rightarrow> string \<Rightarrow> error + 'v" where
  "getitem_raw reversed self key =
     (let reverse = (last2 key = ''_r'');
          key = (if reverse then drop_last2 key else key)
      in case self key of
           None \<Rightarrow> Inl KeyError
         | Some val \<Rightarrow>
             if reverse
             then (case reversed val of None \<Rightarrow> Inl KeyError | Some r \<Rightarrow> Inr r)
             else Inr val)"

text \<open>\<^verbatim>\<open>_CmapDict.__getitem__(key)\<close>.\<close>

definition getitem :: "('v \<Rightarrow> 'v option) \<Rightarrow> 'v cmapdict \<Rightarrow> pykey \<Rightarrow> error + 'v" where
  "getitem reversed self k =
     (case sanitize_key self k of
        Inl e \<Rightarrow> Inl e
      | Inr key \<Rightarrow> getitem_raw reversed self key)"

text \<open>
  \<^verbatim>\<open>_CmapDict.__setitem__(key, item)\<close>: the exception raised, if any, and the
  dictionary after the call.
\<close>

definition setitem :: "'v cmapdict \<Rightarrow> pykey \<Rightarrow> 'v \<Rightarrow> error option \<times> 'v cmapdict" where
  "setitem self k item =
     (case k of
        NotStr _ \<Rightarrow> (Some KeyError, self)
      | Str key \<Rightarrow> (None, self(lower key \<mapsto> item)))"

text \<open>The invariant of the dictionary: every stored key is a lowercase string.\<close>

definition lowercase_keys :: "'v cmapdict \<Rightarrow> bool" where
  "lowercase_keys self \<longleftrightarrow> (\<forall>key \<in> dom self. lower key = key)"

section \<open>axes/plot.py: the level locator\<close>

text \<open>
  The argument \<open>N\<close> of \<^verbatim>\<open>_auto_levels_locator\<close>: absent, a number of levels, or an
  iterable of levels. The second component of the result is a tick locator object or an
  array of tick locations.
\<close>

datatype level_count = N_None | N_Int int | N_Iterable "real list"

datatype 'l tick_locator = Locator 'l | Ticks "real list"

text \<open>\<^verbatim>\<open>np.iterable(N)\<close>.\<close>

fun iterable :: "level_count \<Rightarrow> bool" where
  "iterable (N_Iterable _) = True"
| "iterable _ = False"

text \<open>
  \<^verbatim>\<open>_auto_levels_locator\<close>, with the normalizer given by name (\<open>None\<close> and the empty
  name stand for \<open>linear\<close>). The normalizer constructor \<^verbatim>\<open>constructor.Norm\<close> and the
  locator heuristics that follow the option check depend on the plotting library; they
  are the parameters \<open>Norm\<close> and \<open>locate\<close>.
\<close>

definition auto_levels_locator ::
  "(string \<Rightarrow> error + 'nm) \<Rightarrow>
   (int \<Rightarrow> 'nm \<Rightarrow> bool \<Rightarrow> bool \<Rightarrow> error + (real list \<times> 'l tick_locator)) \<Rightarrow>
   level_count \<Rightarrow> string option \<Rightarrow> bool \<Rightarrow> bool \<Rightarrow> error + (real list \<times> 'l tick_locator)" where
  "auto_levels_locator Norm locate n norm' positive negative =
     (case n of
        N_Iterable levels \<Rightarrow> Inr (levels, Ticks levels)
      | _ \<Rightarrow>
          let n = (case n of N_Int k \<Rightarrow> k | _ \<Rightarrow> 11);
              norm_or_linear = (case norm' of None \<Rightarrow> ''linear''
                                | Some s \<Rightarrow> if s = [] then ''linear'' else s)
          in case Norm norm_or_linear of
               Inl e \<Rightarrow> Inl e
             | Inr nrm \<Rightarrow>
                 if positive \<and> negative then Inl ValueError
                 else locate n nrm positive negative)"

section \<open>axes/plot.py: positional arguments of the 1D plotting methods\<close>

text \<open>
  The data arguments are numeric numpy arrays of one or two dimensions, of an integer
  or a floating-point dtype; labelled containers (pandas, xarray) and arrays of strings
  are outside the model. A two-dimensional array is given by its number of columns and
  its rows, each of which has that many entries.
\<close>

datatype pydata = NDArray1 dtype "real list" | NDArray2 dtype nat "real list list"







text \<open>
  The loop of \<^verbatim>\<open>_fix_latlon\<close>: as long as some longitude lies below the first one,
  every such longitude is raised by 360, in the dtype of the array. With the
  wrap-around of an integer dtype the loop need not end; \<open>None\<close> stands for a loop that
  runs forever.
\<close>

partial_function (option) fix_latlon_loop :: "dtype \<Rightarrow> real \<Rightarrow> real list \<Rightarrow> real list option" where
  "fix_latlon_loop dt lon1 x =
     (if list_ex (\<lambda>v. v < lon1) x
      then fix_latlon_loop dt lon1 (map (\<lambda>v. if v < lon1 then np_add dt v 360 else v) x)
      else Some x)"









text \<open>
  What the wrapped method is called with: no data at all, or the \<open>x\<close> coordinates, the
  \<open>y\<close> arrays, each with the indices along its last axis that hold NaN instead of the
  entry listed, and the remaining positional arguments.
\<close>

datatype call = NoData | Data pydata "(pydata \<times> nat list) list" "pydata list"


text \<open>
  A stand-in for the two parameters, used to run the model on concrete inputs: a
  normalizer constructor that always succeeds, and a locator that returns evenly spaced
  levels (the source's \<^verbatim>\<open>np.linspace\<close> fallback on the unit interval).
\<close>

definition Norm_ok :: "string \<Rightarrow> error + string" where
  "Norm_ok norm' = Inr norm'"

definition locate_linspace ::
  "int \<Rightarrow> string \<Rightarrow> bool \<Rightarrow> bool \<Rightarrow> error + (real list \<times> unit tick_locator)" where
  "locate_linspace n nrm positive negative = Inr (linspace01 (nat n), Ticks (linspace01 (nat n)))"

section \<open>Properties\<close>

subsection \<open>Arrays and bin search\<close>

lemma amin_Min: "a \<noteq> [] \<Longrightarrow> amin a = Min (set a)"
proof (cases a)
  case (Cons x xs)
  then show ?thesis using Min.set_eq_fold [of x xs] by (simp add: amin_def)
qed simp

lemma amax_Max: "a \<noteq> [] \<Longrightarrow> amax a = Max (set a)"
proof (cases a)
  case (Cons x xs)
  then show ?thesis using Max.set_eq_fold [of x xs] by (simp add: amax_def)
qed simp

lemma length_successive_diffs: "length (successive_diffs a) = length a - 1"
  by (simp add: successive_diffs_def)

lemma nth_successive_diffs: "Suc i < length a \<Longrightarrow> successive_diffs a ! i = a ! Suc i - a ! i"
  by (simp add: successive_diffs_def nth_tl nth_butlast)

lemma increasing_successive_diffs:
  "\<not> list_ex (\<lambda>d. d \<le> 0) (successive_diffs a) \<longleftrightarrow> (\<forall>i. Suc i < length a \<longrightarrow> a ! i < a ! Suc i)"
proof -
  have "\<not> list_ex (\<lambda>d. d \<le> 0) (successive_diffs a) \<longleftrightarrow> (\<forall>i < length (successive_diffs a). 0 < successive_diffs a ! i)"
    by (auto simp: list_ex_length not_le)
  also have "\<dots> \<longleftrightarrow> (\<forall>i. Suc i < length a \<longrightarrow> 0 < a ! Suc i - a ! i)"
    by (auto simp: length_successive_diffs nth_successive_diffs)
  finally show ?thesis by simp
qed

lemma increasing_sorted:
  "\<not> list_ex (\<lambda>d. d \<le> 0) (successive_diffs a) \<longleftrightarrow> sorted_wrt (<) a"
  by (simp add: increasing_successive_diffs sorted_wrt_iff_nth_Suc_transp)

lemma searchsorted_le: "searchsorted a v \<le> length a"
  by (simp add: searchsorted_def length_takeWhile_le)

lemma searchsorted_eqI:
  assumes "i \<le> length a" "\<And>j. j < i \<Longrightarrow> a ! j < v" "i < length a \<Longrightarrow> v \<le> a ! i"
  shows "searchsorted a v = i"
proof -
  have "takeWhile (\<lambda>u. u < v) a = take i a"
    using assms by (intro takeWhile_eq_take_P_nth) (auto simp: not_less)
  then show ?thesis using assms(1) by (simp add: searchsorted_def)
qed

lemma searchsorted_below: "j < searchsorted a v \<Longrightarrow> a ! j < v"
  unfolding searchsorted_def
  by (metis nth_mem set_takeWhileD takeWhile_nth)

lemma searchsorted_at: "searchsorted a v < length a \<Longrightarrow> v \<le> a ! searchsorted a v"
  unfolding searchsorted_def
  using nth_length_takeWhile [of "\<lambda>u. u < v" a] by (simp add: not_less)

lemma nth_linspace01: "2 \<le> n \<Longrightarrow> i < n \<Longrightarrow> linspace01 n ! i = real i / real (n - 1)"
  by (simp add: linspace01_def)

lemma length_linspace01: "length (linspace01 n) = n"
  by (simp add: linspace01_def)

lemma sorted_wrt_nth_less: "sorted_wrt (<) (a :: real list) \<Longrightarrow> i < j \<Longrightarrow> j < length a \<Longrightarrow> a ! i < a ! j"
  by (simp add: sorted_wrt_iff_nth_less)

text \<open>The clipped bin index of a query inside the level range.\<close>

lemma segment_index:
  fixes a :: "real list"
  assumes srt: "sorted_wrt (<) a" and len: "2 \<le> length a"
    and lo: "a ! 0 \<le> q" and hi: "q \<le> a ! (length a - 1)"
  defines "s \<equiv> searchsorted a q"
  defines "ind \<equiv> (if (if s = 0 then 1 else s) = length a then length a - 1 else (if s = 0 then 1 else s))"
  shows "1 \<le> ind \<and> ind < length a \<and> a ! (ind - 1) \<le> q \<and> q \<le> a ! ind
         \<and> (q = a ! (ind - 1) \<longrightarrow> ind = 1)"
proof -
  have s_lt: "s < length a"
  proof (rule ccontr)
    assume "\<not> s < length a"
    then have "s = length a" using searchsorted_le [of a q] by (simp add: s_def)
    then have "a ! (length a - 1) < q"
      using searchsorted_below [of "length a - 1" a q] len by (simp add: s_def)
    then show False using hi by simp
  qed
  show ?thesis
  proof (cases "s = 0")
    case True
    then have "q \<le> a ! 0" using searchsorted_at [of a q] s_lt by (simp add: s_def)
    then have "q = a ! 0" using lo by simp
    moreover have "a ! 0 < a ! 1" using sorted_wrt_nth_less [OF srt, of 0 1] len by simp
    ultimately show ?thesis using True len by (simp add: ind_def)
  next
    case False
    then have i: "ind = s" using s_lt by (simp add: ind_def)
    have "a ! (s - 1) < q" using searchsorted_below [of "s - 1" a q] False by (simp add: s_def)
    moreover have "q \<le> a ! s" using searchsorted_at [of a q] s_lt by (simp add: s_def)
    ultimately show ?thesis using False s_lt i by simp
  qed
qed


lemma linspace01_step:
  assumes "2 \<le> n" "1 \<le> ind" "ind < n"
  shows "linspace01 n ! ind - linspace01 n ! (ind - 1) = 1 / real (n - 1)"
proof -
  have "real ind - real (ind - 1) = 1" using assms by (simp add: of_nat_diff)
  then show ?thesis
    using assms by (simp add: nth_linspace01 diff_divide_distrib [symmetric])
qed

lemma linspace01_index:
  assumes n: "2 \<le> n" and ind: "1 \<le> ind" "ind < n"
    and d: "0 \<le> d" "d \<le> 1" and d0: "d = 0 \<longrightarrow> ind = 1"
  defines "yq \<equiv> d * (linspace01 n ! ind - linspace01 n ! (ind - 1)) + linspace01 n ! (ind - 1)"
  defines "s \<equiv> searchsorted (linspace01 n) yq"
  shows "(if (if s = 0 then 1 else s) = n then n - 1 else (if s = 0 then 1 else s)) = ind"
proof -
  have m: "0 < real (n - 1)" using n by simp
  have yq: "yq = (d + real (ind - 1)) / real (n - 1)"
    using linspace01_step [OF n ind] n ind
    by (simp add: yq_def nth_linspace01 add_divide_distrib)
  show ?thesis
  proof (cases "d = 0")
    case True
    then have "ind = 1" using d0 by simp
    then have "yq = 0" using True yq by simp
    then have "s = 0"
      unfolding s_def using n
      by (intro searchsorted_eqI) (simp_all add: length_linspace01 nth_linspace01)
    then show ?thesis using \<open>ind = 1\<close> n by simp
  next
    case False
    then have dpos: "0 < d" using d by simp
    have "s = ind"
      unfolding s_def
    proof (rule searchsorted_eqI)
      show "ind \<le> length (linspace01 n)" using ind by (simp add: length_linspace01)
    next
      fix j assume j: "j < ind"
      then have "real j \<le> real (ind - 1)" by simp
      then have "real j < d + real (ind - 1)" using dpos by simp
      then have "real j / real (n - 1) < yq"
        using m by (simp add: yq divide_strict_right_mono)
      then show "linspace01 n ! j < yq" using j ind n by (simp add: nth_linspace01)
    next
      have "d + real (ind - 1) \<le> real ind" using d ind by (simp add: of_nat_diff)
      then have "yq \<le> real ind / real (n - 1)"
        using m by (simp add: yq divide_right_mono)
      then show "yq \<le> linspace01 n ! ind" using ind n by (simp add: nth_linspace01)
    qed
    then show ?thesis using ind by simp
  qed
qed

subsection \<open>BinNorm\<close>

lemma dtype_diffs_float: "dtype_diffs FloatType a = successive_diffs a"
  by (simp add: dtype_diffs_def successive_diffs_def np_subtract_def)

lemma dtype_midpoints_float: "dtype_midpoints FloatType a = midpoints a"
  by (simp add: dtype_midpoints_def midpoints_def np_add_def)





lemma np_subtract_int_exact:
  assumes "0 < bits" "- (2 ^ (bits - 1)) \<le> m - n" "m - n < 2 ^ (bits - 1)"
  shows "np_subtract (IntType True bits) (real_of_int m) (real_of_int n) = real_of_int (m - n)"
proof -
  have p: "(2 :: int) ^ bits = 2 * 2 ^ (bits - 1)"
    using assms(1) by (cases bits) simp_all
  have "0 \<le> m - n + 2 ^ (bits - 1)" "m - n + 2 ^ (bits - 1) < 2 ^ bits"
    using assms(2,3) p by simp_all
  then have "(m - n + 2 ^ (bits - 1)) mod 2 ^ bits = m - n + 2 ^ (bits - 1)"
    by (rule mod_pos_pos_trivial)
  then show ?thesis by (simp add: np_subtract_def wrap_int_def)
qed




text \<open>
  In the other direction the \<open>uint8\<close> levels 2 and 1 are decreasing, and yet the
  construction succeeds, because their difference wraps around to 255.
\<close>

lemma BinNorm_init_uint8_decreasing:
  "\<not> isl (BinNorm_init (IntType False 8) [2, 1] None False 1 (Some ''neither''))"
  by (simp add: BinNorm_init_def dtype_diffs_def np_subtract_def wrap_int_def Let_def)

text \<open>
  Claim C2. With exactly two levels the midpoint array has a single entry, the
  normalised array is 0/0 and is filtered out, and \<open>_y\<close> is left with two entries
  instead of three. A query above the largest level is then sent to index 2 of \<open>_y\<close>:
  the call raises IndexError instead of returning 1. This holds for the levels
  \<open>[0, 1]\<close> both as a float array and as an \<open>int64\<close> array.
\<close>

theorem BinNorm_call_two_levels_IndexError:
  "map_sum id (\<lambda>self. BinNorm_call self 2)
       (BinNorm_init FloatType [0, 1] None False 1 (Some ''neither''))
     = Inr (Inl IndexError)
   \<and> map_sum id (\<lambda>self. BinNorm_call self 2)
       (BinNorm_init (IntType True 64) [0, 1] None False 1 (Some ''neither''))
     = Inr (Inl IndexError)"
  by (simp add: BinNorm_init_def BinNorm_call_def dtype_diffs_def dtype_midpoints_def
        np_subtract_def np_add_def wrap_int_def amin_def amax_def searchsorted_def Let_def)

text \<open>
  The same holds for every pair of float levels and every \<open>extend\<close> option and step.
\<close>

lemma BinNorm_call_two_levels:
  assumes "a < b" "b < x" "ext \<in> set [''both'', ''min'', ''max'', ''neither'']"
  shows "\<exists>self. BinNorm_init FloatType [a, b] None c step (Some ext) = Inr self
           \<and> bn_y self = [0, 1] \<and> BinNorm_call self x = Inl IndexError"
  using assms
  by (auto simp: BinNorm_init_def BinNorm_call_def dtype_diffs_def dtype_midpoints_def
        np_subtract_def np_add_def amin_def amax_def searchsorted_def Let_def)

text \<open>
  With three or more float levels the midpoints are spread out, nothing is filtered,
  \<open>_y\<close> has one entry per bin, and the call stays in [0, 1] with 0 below the smallest
  level and 1 above the largest.
\<close>

lemma length_midpoints: "length (midpoints a) = length a - 1"
  by (simp add: midpoints_def)

lemma nth_midpoints: "Suc i < length a \<Longrightarrow> midpoints a ! i = (a ! Suc i + a ! i) / 2"
  by (simp add: midpoints_def nth_tl nth_butlast)

lemma midpoints_spread:
  assumes "3 \<le> length a" "sorted_wrt (<) a"
  shows "amin (midpoints a) < amax (midpoints a)"
proof -
  let ?m = "midpoints a"
  have ne: "?m \<noteq> []" using assms(1) length_midpoints [of a] by auto
  have l: "0 < length ?m" "1 < length ?m" using assms(1) by (simp_all add: length_midpoints)
  have "a ! 0 < a ! 1" "a ! 1 < a ! 2"
    using sorted_wrt_nth_less [OF assms(2)] assms(1) by simp_all
  then have lt: "?m ! 0 < ?m ! 1" using assms(1) by (simp add: nth_midpoints numeral_2_eq_2)
  have "amin ?m \<le> ?m ! 0" using l ne by (simp add: amin_Min)
  moreover have "?m ! 1 \<le> amax ?m" using l ne by (simp add: amax_Max)
  ultimately show ?thesis using lt by linarith
qed

lemma unit_fraction:
  assumes "m \<in> set ms"
  shows "0 \<le> (m - amin ms) / (amax ms - amin ms) \<and> (m - amin ms) / (amax ms - amin ms) \<le> 1"
proof -
  have ne: "ms \<noteq> []" using assms by auto
  have "amin ms \<le> m" "m \<le> amax ms" using assms ne by (simp_all add: amin_Min amax_Max)
  then show ?thesis by (auto simp: divide_le_eq_1)
qed

lemma BinNorm_init_fields:
  assumes len: "2 \<le> length levels" and srt: "sorted_wrt (<) levels"
    and ext: "ext \<in> set [''both'', ''min'', ''max'', ''neither'']"
  shows "\<exists>self. BinNorm_init FloatType levels None c step (Some ext) = Inr self
           \<and> bn_norm self = (\<lambda>x. x) \<and> bn_x_b self = levels
           \<and> bn_y self =
               [0] @ map (\<lambda>v. (if ext \<in> set [''min'', ''both''] then step / real (length levels) else 0)
                     + (1 - (if ext \<in> set [''min'', ''both''] then step / real (length levels) else 0)
                          - (if ext \<in> set [''max'', ''both''] then step / real (length levels) else 0)) * v)
                  (if amax (midpoints levels) - amin (midpoints levels) = 0 then []
                   else map (\<lambda>m. (m - amin (midpoints levels))
                                   / (amax (midpoints levels) - amin (midpoints levels)))
                          (midpoints levels)) @ [1]"
proof -
  have "\<not> list_ex (\<lambda>d. d \<le> 0) (dtype_diffs FloatType levels)"
    using srt by (simp add: dtype_diffs_float increasing_sorted)
  moreover have "ext \<noteq> []" using ext by auto
  ultimately show ?thesis
    using len ext by (auto simp: BinNorm_init_def dtype_midpoints_float Let_def)
qed

lemma BinNorm_call_range_three_levels:
  assumes len: "3 \<le> length levels" and srt: "sorted_wrt (<) levels"
    and ext: "ext \<in> set [''both'', ''min'', ''max'', ''neither'']"
  shows "\<exists>self. BinNorm_init FloatType levels None c 1 (Some ext) = Inr self
           \<and> (\<exists>y. BinNorm_call self x = Inr y \<and> 0 \<le> y \<and> y \<le> 1)
           \<and> (x < levels ! 0 \<longrightarrow> BinNorm_call self x = Inr 0)
           \<and> (levels ! (length levels - 1) < x \<longrightarrow> BinNorm_call self x = Inr 1)"
proof -
  define n where "n = length levels"
  define eps where "eps = 1 / real n"
  define offset where "offset = (if ext \<in> set [''min'', ''both''] then eps else 0)"
  define scale where "scale = 1 - (if ext \<in> set [''min'', ''both''] then eps else 0)
                                - (if ext \<in> set [''max'', ''both''] then eps else 0)"
  define ms where "ms = midpoints levels"
  define ys where "ys = map (\<lambda>m. (m - amin ms) / (amax ms - amin ms)) ms"
  have n3: "3 \<le> n" using len by (simp add: n_def)
  have len2: "2 \<le> length levels" using len by simp
  have spread: "amax ms - amin ms \<noteq> 0"
    using midpoints_spread [OF len srt] by (simp add: ms_def)
  obtain self where init: "BinNorm_init FloatType levels None c 1 (Some ext) = Inr self"
    and nrm: "bn_norm self = (\<lambda>x. x)" and xb: "bn_x_b self = levels"
    and y: "bn_y self = [0] @ map (\<lambda>v. offset + scale * v) ys @ [1]"
    using BinNorm_init_fields [OF len2 srt ext, of c 1] spread
    unfolding offset_def scale_def eps_def n_def ys_def ms_def by auto
  have eps: "0 < eps" "eps \<le> 1 / 3"
    using n3 by (simp_all add: eps_def field_simps)
  have os: "0 \<le> offset" "0 \<le> scale" "offset + scale \<le> 1"
    using eps by (auto simp: offset_def scale_def)
  have ys01: "\<And>v. v \<in> set ys \<Longrightarrow> 0 \<le> v \<and> v \<le> 1"
    using unit_fraction [of _ ms] by (auto simp: ys_def)
  have lin: "\<And>v. 0 \<le> v \<Longrightarrow> v \<le> 1 \<Longrightarrow> 0 \<le> offset + scale * v \<and> offset + scale * v \<le> 1"
  proof -
    fix v :: real assume v: "0 \<le> v" "v \<le> 1"
    have "scale * v \<le> scale * 1" using v os by (intro mult_left_mono) simp_all
    moreover have "0 \<le> scale * v" using v os by simp
    ultimately show "0 \<le> offset + scale * v \<and> offset + scale * v \<le> 1" using os by linarith
  qed
  have all01: "\<And>v. v \<in> set (bn_y self) \<Longrightarrow> 0 \<le> v \<and> v \<le> 1"
    using ys01 lin by (auto simp: y)
  have ylen: "length (bn_y self) = n + 1"
    by (simp add: y ys_def ms_def length_midpoints n_def) (use len in linarith)
  define i where "i = searchsorted levels x"
  have ile: "i \<le> n" using searchsorted_le [of levels x] by (simp add: i_def n_def)
  have call: "BinNorm_call self x = Inr (bn_y self ! i)"
    using ile ylen by (simp add: BinNorm_call_def nrm xb i_def Let_def)
  have "bn_y self ! i \<in> set (bn_y self)" using ile ylen by simp
  then have rng: "0 \<le> bn_y self ! i \<and> bn_y self ! i \<le> 1" using all01 by blast
  have below: "x < levels ! 0 \<Longrightarrow> bn_y self ! i = 0"
  proof -
    assume "x < levels ! 0"
    then have "i = 0" unfolding i_def by (intro searchsorted_eqI) simp_all
    then show ?thesis by (simp add: y)
  qed
  have above: "levels ! (length levels - 1) < x \<Longrightarrow> bn_y self ! i = 1"
  proof -
    assume top: "levels ! (length levels - 1) < x"
    have "i = length levels" unfolding i_def
    proof (rule searchsorted_eqI)
      fix j assume j: "j < length levels"
      show "levels ! j < x"
      proof (cases "j = length levels - 1")
        case True then show ?thesis using top by simp
      next
        case False
        then have "levels ! j < levels ! (length levels - 1)"
          using sorted_wrt_nth_less [OF srt, of j "length levels - 1"] j by simp
        then show ?thesis using top by simp
      qed
    qed simp_all
    then have "i = length (bn_y self) - 1" using ylen by (simp add: n_def)
    moreover have "bn_y self \<noteq> []" by (simp add: y)
    ultimately have "bn_y self ! i = last (bn_y self)" by (simp add: last_conv_nth)
    then show ?thesis by (simp add: y)
  qed
  show ?thesis using init call rng below above by auto
qed

subsection \<open>LinearSegmentedNorm\<close>

text \<open>
  Claim C3. For strictly increasing levels of length at least two, \<^verbatim>\<open>__init__\<close>
  succeeds, and for every query \<open>x\<close> between the first and the last level
  \<^verbatim>\<open>inverse(__call__(x))\<close> is \<open>x\<close> again, in exact arithmetic.
\<close>

theorem LinearSegmentedNorm_roundtrip:
  assumes len: "2 \<le> length levels" and srt: "sorted_wrt (<) levels"
    and lo: "levels ! 0 \<le> x" and hi: "x \<le> levels ! (length levels - 1)"
  shows "\<exists>self. LinearSegmentedNorm_init levels c = Inr self
           \<and> LinearSegmentedNorm_inverse self (LinearSegmentedNorm_call self x) = x"
proof -
  define self where "self = \<lparr>vmin = amin levels, vmax = amax levels, clip = c,
                 ls_x = levels, ls_y = linspace01 (length levels)\<rparr>"
  have init: "LinearSegmentedNorm_init levels c = Inr self"
    using len srt by (simp add: LinearSegmentedNorm_init_def self_def increasing_sorted)
  define n where "n = length levels"
  define y where "y = linspace01 n"
  define s where "s = searchsorted levels x"
  define ind where "ind = (if (if s = 0 then 1 else s) = length levels then length levels - 1
                           else (if s = 0 then 1 else s))"
  define d where "d = (x - levels ! (ind - 1)) / (levels ! ind - levels ! (ind - 1))"
  define yq where "yq = d * (y ! ind - y ! (ind - 1)) + y ! (ind - 1)"
  have "1 \<le> ind \<and> ind < n \<and> levels ! (ind - 1) \<le> x \<and> x \<le> levels ! ind
          \<and> (x = levels ! (ind - 1) \<longrightarrow> ind = 1)"
    unfolding ind_def s_def n_def by (rule segment_index [OF srt len lo hi])
  then have idx: "1 \<le> ind" "ind < n" "levels ! (ind - 1) \<le> x" "x \<le> levels ! ind"
    "x = levels ! (ind - 1) \<longrightarrow> ind = 1"
    by blast+
  have gap: "0 < levels ! ind - levels ! (ind - 1)"
    using sorted_wrt_nth_less [OF srt, of "ind - 1" ind] idx by (simp add: n_def)
  have d1: "0 \<le> d" using idx(3) gap by (simp add: d_def)
  have d2: "d \<le> 1" using idx(4) gap by (simp add: d_def)
  have d3: "d = 0 \<longrightarrow> ind = 1" using idx(5) gap by (simp add: d_def)
  note d = d1 d2 d3
  have call: "LinearSegmentedNorm_call self x = yq"
    by (simp add: LinearSegmentedNorm_call_def self_def Let_def yq_def d_def ind_def s_def y_def n_def)
  define s' where "s' = searchsorted y yq"
  have n2: "2 \<le> n" using len by (simp add: n_def)
  have ind': "(if (if s' = 0 then 1 else s') = n then n - 1 else (if s' = 0 then 1 else s')) = ind"
    unfolding s'_def yq_def y_def
    by (rule linspace01_index [OF n2 idx(1) idx(2) d])
  have ystep: "y ! ind - y ! (ind - 1) = 1 / real (n - 1)"
    using linspace01_step [of n ind] len idx by (simp add: y_def n_def)
  define ind2 where "ind2 = (if (if s' = 0 then 1 else s') = n then n - 1
                             else (if s' = 0 then 1 else s'))"
  have "LinearSegmentedNorm_inverse self yq =
          (yq - y ! (ind2 - 1)) / (y ! ind2 - y ! (ind2 - 1)) * (levels ! ind2 - levels ! (ind2 - 1))
            + levels ! (ind2 - 1)"
    unfolding LinearSegmentedNorm_inverse_def Let_def ind2_def s'_def y_def n_def self_def
    by (simp only: LinearSegmentedNorm.simps length_linspace01)
  also have "ind2 = ind" using ind' by (simp only: ind2_def)
  also have "(yq - y ! (ind - 1)) / (y ! ind - y ! (ind - 1)) = d"
    using ystep len by (simp add: yq_def n_def)
  also have "d * (levels ! ind - levels ! (ind - 1)) + levels ! (ind - 1) = x"
    using gap by (simp add: d_def)
  finally show ?thesis using init call by simp
qed

theorem LinearSegmentedNorm_roundtrip_witness:
  "2 \<le> length [0, 1, 3 :: real] \<and> sorted_wrt (<) [0, 1, 3 :: real]
   \<and> [0, 1, 3 :: real] ! 0 \<le> 2 \<and> (2 :: real) \<le> [0, 1, 3] ! (length [0, 1, 3 :: real] - 1)
   \<and> (\<exists>self. LinearSegmentedNorm_init [0, 1, 3] False = Inr self
           \<and> LinearSegmentedNorm_call self 2 = 3 / 4
           \<and> LinearSegmentedNorm_inverse self (LinearSegmentedNorm_call self 2) = 2)"
  using LinearSegmentedNorm_roundtrip [of "[0, 1, 3]" 2 False]
  by (auto simp: LinearSegmentedNorm_init_def LinearSegmentedNorm_call_def successive_diffs_def
        linspace01_def searchsorted_def Let_def)

subsection \<open>MidpointNorm\<close>

text \<open>
  Claim C4. \<^verbatim>\<open>MidpointNorm.__call__\<close> raises, and then ValueError, exactly when
  \<open>vmin \<ge> midpoint\<close> or \<open>vmax \<le> midpoint\<close>; when it does not raise, \<open>vmin\<close> is sent to
  0, the midpoint to 0.5 and \<open>vmax\<close> to 1.
\<close>

theorem MidpointNorm_call_spec:
  "(isl (MidpointNorm_call self xq) \<longleftrightarrow> vmin self \<ge> midpoint self \<or> vmax self \<le> midpoint self)
   \<and> (MidpointNorm_call self xq = Inl ValueError \<longleftrightarrow>
        vmin self \<ge> midpoint self \<or> vmax self \<le> midpoint self)
   \<and> (\<not> (vmin self \<ge> midpoint self \<or> vmax self \<le> midpoint self) \<longrightarrow>
        MidpointNorm_call self (vmin self) = Inr 0
        \<and> MidpointNorm_call self (midpoint self) = Inr (1 / 2)
        \<and> MidpointNorm_call self (vmax self) = Inr 1)"
  by (auto simp add: MidpointNorm_call_def searchsorted_def Let_def field_simps)

theorem MidpointNorm_call_spec_witness:
  "\<not> isl (MidpointNorm_call \<lparr>vmin = - 1, vmax = 3, clip = False, midpoint = 0\<rparr> 2)
   \<and> MidpointNorm_call \<lparr>vmin = - 1, vmax = 3, clip = False, midpoint = 0\<rparr> (- 1) = Inr 0
   \<and> MidpointNorm_call \<lparr>vmin = - 1, vmax = 3, clip = False, midpoint = 0\<rparr> 0 = Inr (1 / 2)
   \<and> MidpointNorm_call \<lparr>vmin = - 1, vmax = 3, clip = False, midpoint = 0\<rparr> 3 = Inr 1"
  using MidpointNorm_call_spec
          [of "\<lparr>vmin = - 1, vmax = 3, clip = False, midpoint = 0\<rparr>" 2]
  by simp

subsection \<open>clip_colors\<close>

text \<open>
  Claim C10. On an n-by-3 array and with \<open>gray = 0.2\<close>, \<^verbatim>\<open>clip_colors\<close> returns, in
  both modes and with or without messages, an array of the same shape whose entries all
  lie in [0, 1], and every entry that was already in [0, 1] is returned unchanged.
\<close>

theorem clip_colors_range:
  assumes "list_all (\<lambda>row. length row = 3) colors"
  shows "\<exists>out msgs. clip_colors colors m (1 / 5) verbose = Inr (out, msgs)
     \<and> length out = length colors
     \<and> (\<forall>i < length colors. length (out ! i) = 3
          \<and> (\<forall>j < 3. 0 \<le> out ! i ! j \<and> out ! i ! j \<le> 1
                \<and> (0 \<le> colors ! i ! j \<and> colors ! i ! j \<le> 1 \<longrightarrow> out ! i ! j = colors ! i ! j)))"
proof -
  have ok: "list_all (\<lambda>row. 3 \<le> length row) colors"
    using assms by (simp add: list_all_iff)
  have len: "\<And>i. i < length colors \<Longrightarrow> length (colors ! i) = 3"
    using assms by (simp add: list_all_length)
  show ?thesis
    using ok len by (cases m; cases verbose) (auto simp: clip_colors_def Let_def)
qed

theorem clip_colors_range_witness:
  "list_all (\<lambda>row. length row = 3) [[- 1, 1 / 2, 2 :: real]] \<and>
   clip_colors [[- 1, 1 / 2, 2]] True (1 / 5) True =
     Inr ([[1 / 5, 1 / 2, 1 / 5]],
          [''Warning: Invalid \"r\" channel (<0).'', ''Warning: Invalid \"b\" channel (>1).''])"
  using clip_colors_range [of "[[- 1, 1 / 2, 2]]" True True]
  by (simp add: clip_colors_def channel_messages_def column_any_def)

subsection \<open>merge_cmaps\<close>

text \<open>
  Claim C5. Two \<^verbatim>\<open>ListedColormap\<close> instances merged with the default \<open>ratios = 1\<close>:
  the number becomes the Python list \<open>[1, 1]\<close>, the test \<^verbatim>\<open>np.all(ratios == 1)\<close>
  compares that list with the number 1 and is false, and the call raises ValueError
  instead of returning the concatenated colors.
\<close>

theorem merge_cmaps_listed_default_ratios:
  "merge_cmaps seg [ListedColormap [''red''] ''a'' 1, ListedColormap [''blue''] ''b'' 1]
     ''merged'' 512 (RNumber 1) = Inl ValueError"
  by (simp add: merge_cmaps_def)

text \<open>
  Fewer than two colormaps raise ValueError, as claimed. Listed colormaps raise
  ValueError for every number and every list given as \<open>ratios\<close>; the concatenation is
  reached only with a one-entry numpy array.
\<close>

lemma merge_cmaps_too_few:
  "length cmaps \<le> 1 \<Longrightarrow> merge_cmaps seg cmaps name n r = Inl ValueError"
  by (simp add: merge_cmaps_def)

lemma merge_cmaps_listed_number:
  "list_all is_listed cmaps \<Longrightarrow> merge_cmaps seg cmaps name n (RNumber r) = Inl ValueError"
  by (simp add: merge_cmaps_def)

lemma merge_cmaps_listed_list:
  "list_all is_listed cmaps \<Longrightarrow> merge_cmaps seg cmaps name n (RList rs) = Inl ValueError"
  by (simp add: merge_cmaps_def)

lemma merge_cmaps_listed_array:
  "2 \<le> length cmaps \<Longrightarrow> list_all is_listed cmaps \<Longrightarrow>
   merge_cmaps seg cmaps name n (RArray [1]) =
     Inr (ListedColormap (concat (map cm_colors cmaps)) name (length (concat (map cm_colors cmaps))))"
  by (simp add: merge_cmaps_def Let_def)

subsection \<open>The level locator\<close>

text \<open>
  Claim C6, as amended. When \<open>N\<close> is not iterable and the normalizer constructor
  returns, \<^verbatim>\<open>_auto_levels_locator\<close> raises ValueError for \<open>positive\<close> and \<open>negative\<close>
  both set; when \<open>N\<close> is iterable it returns the pair \<open>(N, N)\<close> whatever the other
  options are.
\<close>

theorem auto_levels_locator_spec:
  "(\<not> iterable n
      \<and> Norm (case norm' of None \<Rightarrow> ''linear'' | Some s \<Rightarrow> if s = [] then ''linear'' else s)
          = Inr nrm \<longrightarrow>
       auto_levels_locator Norm locate n norm' True True = Inl ValueError)
   \<and> (n = N_Iterable levels \<longrightarrow>
       auto_levels_locator Norm locate n norm' positive negative = Inr (levels, Ticks levels))"
  by (cases n) (simp_all add: auto_levels_locator_def)

theorem auto_levels_locator_spec_witness:
  "\<not> iterable (N_Int 5) \<and> Norm_ok ''linear'' = Inr ''linear''
   \<and> auto_levels_locator Norm_ok locate_linspace (N_Int 5) None True True = Inl ValueError
   \<and> auto_levels_locator Norm_ok locate_linspace (N_Iterable [0, 1]) None True False
        = Inr ([0, 1], Ticks [0, 1])"
  using auto_levels_locator_spec [where n = "N_Int 5" and Norm = Norm_ok and norm' = None
          and nrm = "''linear''" and locate = locate_linspace]
    auto_levels_locator_spec [where n = "N_Iterable [0, 1]" and Norm = Norm_ok
          and norm' = None and levels = "[0, 1]" and locate = locate_linspace
          and positive = True and negative = False]
  by (simp add: Norm_ok_def)

text \<open>
  Claim C6 as stated fails: with an iterable \<open>N\<close> the function returns before it looks
  at \<open>positive\<close> and \<open>negative\<close>, so both set raise nothing.
\<close>

theorem auto_levels_locator_iterable_counterexample:
  "auto_levels_locator Norm_ok locate_linspace (N_Iterable [0, 1]) None True True
     = Inr ([0, 1], Ticks [0, 1])"
  by (simp add: auto_levels_locator_def)

subsection \<open>The colormap dictionary\<close>

lemma lower_char_idem: "lower_char (lower_char c) = lower_char c"
proof -
  have "of_char (char_of (of_char c + 32 :: nat)) = ((of_char c + 32) mod 256 :: nat)"
    by (rule of_char_of)
  moreover have "(of_char c :: nat) < 256" by simp
  ultimately show ?thesis
    by (auto simp: lower_char_def Let_def)
qed

lemma lower_idem: "lower (lower key) = lower key"
  by (simp add: lower_def lower_char_idem)

lemma lower_append: "lower (a @ b) = lower a @ lower b"
  by (simp add: lower_def)

lemma lower_r: "lower ''_r'' = ''_r''"
  by (simp add: lower_def lower_char_def)

lemma last2_append_r: "last2 (key @ ''_r'') = ''_r''"
  by (simp add: last2_def)

lemma drop_last2_append_r: "drop_last2 (key @ ''_r'') = key"
  by (simp add: drop_last2_def)

lemma sanitize_key_stored:
  assumes "self k = Some v" "lower k = k" "last2 k \<noteq> ''_r''"
  shows "sanitize_key self (Str k) = Inr k"
    and "sanitize_key self (Str (k @ ''_r'')) = Inr (k @ ''_r'')"
  using assms
  by (simp_all add: sanitize_key_def Let_def lower_append lower_r last2_append_r
        drop_last2_append_r)

text \<open>
  Claim C8, as amended. For a stored key \<open>k\<close> and a string \<open>K\<close> that lowercases to
  \<open>k\<close>, looking up \<open>K\<close> gives what looking up \<open>k\<close> gives. When \<open>k\<close> does not itself end
  in \<open>_r\<close>, looking up \<open>k\<close> gives the stored value, and looking up \<open>k + '_r'\<close> gives the
  reversed stored value whenever that value has a \<open>reversed()\<close> method.
\<close>

theorem getitem_case_insensitive_reversal:
  assumes stored: "self k = Some v" and low: "lower K = k"
  shows "getitem reversed self (Str K) = getitem reversed self (Str k)
         \<and> (last2 k \<noteq> ''_r'' \<longrightarrow>
              getitem reversed self (Str k) = Inr v
              \<and> (\<forall>r. reversed v = Some r \<longrightarrow>
                    getitem reversed self (Str (k @ ''_r'')) = Inr r))"
proof -
  have k: "lower k = k" using low lower_idem [of K] by simp
  have "sanitize_key self (Str K) = sanitize_key self (Str k)"
    using low k by (simp add: sanitize_key_def)
  then have same: "getitem reversed self (Str K) = getitem reversed self (Str k)"
    by (simp add: getitem_def)
  have plain: "getitem reversed self (Str k) = Inr v" if "last2 k \<noteq> ''_r''"
    using sanitize_key_stored(1) [of self k v] stored k that
    by (simp add: getitem_def getitem_raw_def)
  have rev: "getitem reversed self (Str (k @ ''_r'')) = Inr r"
    if "last2 k \<noteq> ''_r''" "reversed v = Some r" for r
    using sanitize_key_stored(2) [of self k v] stored k that
    by (simp add: getitem_def getitem_raw_def last2_append_r drop_last2_append_r)
  show ?thesis using same plain rev by blast
qed

theorem getitem_case_insensitive_reversal_witness:
  "(Map.empty(''viridis'' \<mapsto> 5 :: nat)) ''viridis'' = Some 5
   \<and> lower ''Viridis'' = ''viridis'' \<and> last2 ''viridis'' \<noteq> ''_r''
   \<and> (Some \<circ> Suc) (5 :: nat) = Some 6
   \<and> getitem (Some \<circ> Suc) (Map.empty(''viridis'' \<mapsto> 5)) (Str ''Viridis'') = Inr 5
   \<and> getitem (Some \<circ> Suc) (Map.empty(''viridis'' \<mapsto> 5)) (Str ''viridis'') = Inr 5
   \<and> getitem (Some \<circ> Suc) (Map.empty(''viridis'' \<mapsto> 5)) (Str (''viridis'' @ ''_r'')) = Inr 6"
proof -
  have l: "lower ''Viridis'' = ''viridis''"
    by (simp add: lower_def lower_char_def char_of_def bit_0)
  have s: "(Map.empty(''viridis'' \<mapsto> 5 :: nat)) ''viridis'' = Some 5" by simp
  have n: "last2 ''viridis'' \<noteq> ''_r''" by (simp add: last2_def)
  show ?thesis
    using getitem_case_insensitive_reversal
            [of "Map.empty(''viridis'' \<mapsto> 5)" "''viridis''" 5 "''Viridis''" "Some \<circ> Suc"] l n
    by simp
qed

text \<open>
  Claim C8 as stated fails for a stored key that ends in \<open>_r\<close>, which \<open>__setitem__\<close>
  accepts: the lookup of \<open>a_r\<close> strips the suffix and misses \<open>a\<close>, a KeyError, while the
  lookup of \<open>a_r_r\<close> finds \<open>a_r\<close> and returns its reversed value.
\<close>

theorem getitem_stored_reversed_key_counterexample:
  "setitem Map.empty (Str ''a_r'') (5 :: nat) = (None, Map.empty(''a_r'' \<mapsto> 5))
   \<and> (Map.empty(''a_r'' \<mapsto> 5 :: nat)) ''a_r'' = Some 5
   \<and> lower ''a_r'' = ''a_r''
   \<and> (Some \<circ> Suc) (5 :: nat) = Some 6
   \<and> getitem (Some \<circ> Suc) (Map.empty(''a_r'' \<mapsto> 5)) (Str ''a_r'') = Inl KeyError
   \<and> getitem (Some \<circ> Suc) (Map.empty(''a_r'' \<mapsto> 5)) (Str (''a_r'' @ ''_r'')) = Inr 6"
proof -
  have l: "lower ''a_r'' = ''a_r''"
    by (simp add: lower_def lower_char_def)
  have s: "setitem Map.empty (Str ''a_r'') (5 :: nat) = (None, Map.empty(''a_r'' \<mapsto> 5))"
    by (simp add: setitem_def l)
  have g1: "getitem (Some \<circ> Suc) (Map.empty(''a_r'' \<mapsto> 5)) (Str ''a_r'') = Inl KeyError"
    by code_simp
  have g2: "getitem (Some \<circ> Suc) (Map.empty(''a_r'' \<mapsto> 5)) (Str (''a_r'' @ ''_r'')) = Inr 6"
    by code_simp
  show ?thesis using l s g1 g2 by simp
qed

lemma init_loop_error:
  "CmapDict_init_loop items acc = Inl e \<Longrightarrow> e = KeyError"
proof (induction items arbitrary: acc)
  case Nil
  then show ?case by simp
next
  case (Cons a items)
  obtain k v where a: "a = (k, v)" by (cases a)
  show ?case using Cons a by (cases k) (auto split: if_splits)
qed

lemma init_loop_isl:
  "isl (CmapDict_init_loop items acc) \<longleftrightarrow> (\<exists>n. NotStr n \<in> fst ` set items)"
proof (induction items arbitrary: acc)
  case Nil
  then show ?case by simp
next
  case (Cons a items)
  obtain k v where a: "a = (k, v)" by (cases a)
  show ?case
  proof (cases k)
    case (Str key)
    then show ?thesis using Cons.IH a by simp
  next
    case (NotStr n)
    then show ?thesis using a by auto
  qed
qed

lemma init_loop_dom:
  "CmapDict_init_loop items acc = Inr self \<Longrightarrow>
     dom self = dom acc \<union> lower ` {key. Str key \<in> fst ` set items \<and> last2 key \<noteq> ''_r''}"
proof (induction items arbitrary: acc)
  case Nil
  then show ?case by simp
next
  case (Cons a items)
  obtain k v where a: "a = (k, v)" by (cases a)
  show ?case
  proof (cases k)
    case (Str key)
    show ?thesis
    proof (cases "last2 key = ''_r''")
      case True
      then have "CmapDict_init_loop items acc = Inr self" using Cons.prems a Str by simp
      then have "dom self = dom acc \<union> lower ` {key. Str key \<in> fst ` set items \<and> last2 key \<noteq> ''_r''}"
        by (rule Cons.IH)
      then show ?thesis using a Str True by auto
    next
      case False
      then have "CmapDict_init_loop items (acc(lower key \<mapsto> v)) = Inr self"
        using Cons.prems a Str by simp
      then have "dom self = dom (acc(lower key \<mapsto> v))
                   \<union> lower ` {key. Str key \<in> fst ` set items \<and> last2 key \<noteq> ''_r''}"
        by (rule Cons.IH)
      then show ?thesis using a Str False by auto
    qed
  next
    case (NotStr n)
    then show ?thesis using Cons.prems a by simp
  qed
qed

text \<open>
  Claim C9. \<open>__init__\<close> raises, and then KeyError, exactly when some key is not a
  string; otherwise it stores the lowercased keys that did not end in \<open>_r\<close>, and they
  are all lowercase. \<open>__setitem__\<close> keeps every stored key lowercase: it stores a string
  key lowercased, and for any other key raises KeyError and leaves the dictionary as it
  was.
\<close>

theorem CmapDict_lowercase_invariant:
  "(isl (CmapDict_init kwargs) \<longleftrightarrow> (\<exists>n. NotStr n \<in> fst ` set kwargs))
   \<and> (isl (CmapDict_init kwargs) \<longleftrightarrow> CmapDict_init kwargs = Inl KeyError)
   \<and> (\<forall>self. CmapDict_init kwargs = Inr self \<longrightarrow>
         lowercase_keys self
         \<and> dom self = lower ` {key. Str key \<in> fst ` set kwargs \<and> last2 key \<noteq> ''_r''})
   \<and> (lowercase_keys d \<longrightarrow> lowercase_keys (snd (setitem d k item)))
   \<and> setitem d (Str key) item = (None, d(lower key \<mapsto> item))
   \<and> setitem d (NotStr n) item = (Some KeyError, d)"
proof -
  have a: "isl (CmapDict_init kwargs) \<longleftrightarrow> (\<exists>n. NotStr n \<in> fst ` set kwargs)"
    by (simp add: CmapDict_init_def init_loop_isl)
  have b: "isl (CmapDict_init kwargs) \<longleftrightarrow> CmapDict_init kwargs = Inl KeyError"
    using init_loop_error [of kwargs Map.empty]
    by (cases "CmapDict_init kwargs") (auto simp: CmapDict_init_def)
  have c: "lowercase_keys self
           \<and> dom self = lower ` {key. Str key \<in> fst ` set kwargs \<and> last2 key \<noteq> ''_r''}"
    if "CmapDict_init kwargs = Inr self" for self
  proof -
    have "dom self = lower ` {key. Str key \<in> fst ` set kwargs \<and> last2 key \<noteq> ''_r''}"
      using init_loop_dom [of kwargs Map.empty self] that by (simp add: CmapDict_init_def)
    then show ?thesis by (auto simp: lowercase_keys_def lower_idem)
  qed
  have d: "lowercase_keys d \<longrightarrow> lowercase_keys (snd (setitem d k item))"
    by (cases k) (auto simp: setitem_def lowercase_keys_def lower_idem)
  show ?thesis using a b c d by (simp add: setitem_def)
qed

theorem CmapDict_lowercase_invariant_witness:
  "CmapDict_init [(Str ''Foo'', 1 :: nat), (Str ''bar_r'', 2)] = Inr (Map.empty(''foo'' \<mapsto> 1))
   \<and> lowercase_keys (Map.empty(''foo'' \<mapsto> 1 :: nat))
   \<and> lowercase_keys (snd (setitem (Map.empty(''foo'' \<mapsto> 1 :: nat)) (Str ''Foo_R'') 3))
   \<and> setitem (Map.empty(''foo'' \<mapsto> 1 :: nat)) (Str ''Foo_R'') 3
        = (None, Map.empty(''foo'' \<mapsto> 1, ''foo_r'' \<mapsto> 3))
   \<and> setitem (Map.empty(''foo'' \<mapsto> 1 :: nat)) (NotStr 0) 3 = (Some KeyError, Map.empty(''foo'' \<mapsto> 1))
   \<and> CmapDict_init [(Str ''Foo'', 1 :: nat), (NotStr 0, 2)] = Inl KeyError"
proof -
  let ?m = "Map.empty(''foo'' \<mapsto> 1 :: nat)"
  let ?kw = "[(Str ''Foo'', 1 :: nat), (Str ''bar_r'', 2)]"
  let ?bad = "[(Str ''Foo'', 1 :: nat), (NotStr 0, 2)]"
  have l: "lower ''Foo'' = ''foo''" "lower ''Foo_R'' = ''foo_r''"
    by (simp_all add: lower_def lower_char_def char_of_def bit_0)
  have i: "CmapDict_init ?kw = Inr ?m"
    by (simp add: CmapDict_init_def last2_def l)
  note t = CmapDict_lowercase_invariant [of ?kw ?m "Str ''Foo_R''" 3 "''Foo_R''" 0]
  note u = CmapDict_lowercase_invariant [of ?bad ?m "Str ''Foo_R''" 3 "''Foo_R''" 0]
  have inv: "lowercase_keys ?m"
    using t [THEN conjunct2, THEN conjunct2, THEN conjunct1] i by blast
  have inv': "lowercase_keys (snd (setitem ?m (Str ''Foo_R'') 3))"
    using t [THEN conjunct2, THEN conjunct2, THEN conjunct2, THEN conjunct1] inv by blast
  have s1: "setitem ?m (Str ''Foo_R'') 3 = (None, ?m(''foo_r'' \<mapsto> 3))"
    using t [THEN conjunct2, THEN conjunct2, THEN conjunct2, THEN conjunct2, THEN conjunct1]
    by (simp only: l)
  have s2: "setitem ?m (NotStr 0) 3 = (Some KeyError, ?m)"
    by (rule t [THEN conjunct2, THEN conjunct2, THEN conjunct2, THEN conjunct2, THEN conjunct2])
  have "\<exists>n. NotStr n \<in> fst ` set ?bad" by force
  then have "isl (CmapDict_init ?bad)" using u [THEN conjunct1] by blast
  then have e: "CmapDict_init ?bad = Inl KeyError"
    using u [THEN conjunct2, THEN conjunct1] by blast
  show ?thesis using i inv inv' s1 s2 e by blast
qed

subsection \<open>Positional arguments of the 1D plotting methods\<close>

text \<open>
  On a float array the longitude loop ends: each pass brings every raised entry one
  turn closer to \<open>lon1\<close>.
\<close>

lemma fix_latlon_loop_float_returns: "\<exists>x'. fix_latlon_loop FloatType lon1 x = Some x'"
proof (induction "sum_list (map (\<lambda>v. nat \<lceil>(lon1 - v) / 360\<rceil>) x)" arbitrary: x rule: less_induct)
  case less
  let ?h = "\<lambda>v. nat \<lceil>(lon1 - v) / 360\<rceil>"
  let ?u = "\<lambda>v. if v < lon1 then v + 360 else v"
  have turn: "?h (v + 360) < ?h v" if "v < lon1" for v
  proof -
    have "(lon1 - (v + 360)) / 360 = (lon1 - v) / 360 - 1" by (simp add: field_simps)
    then have "\<lceil>(lon1 - (v + 360)) / 360\<rceil> = \<lceil>(lon1 - v) / 360\<rceil> - 1"
      by (simp only: ceiling_diff_one)
    moreover have "0 < \<lceil>(lon1 - v) / 360\<rceil>" using that by (simp add: ceiling_less_iff)
    ultimately show ?thesis by simp
  qed
  have le: "(?h \<circ> ?u) v \<le> ?h v" for v
  proof (cases "v < lon1")
    case True
    then have "?h (v + 360) < ?h v" by (rule turn)
    then show ?thesis using True by (simp only: comp_def if_True less_imp_le)
  next
    case False
    then show ?thesis by (simp only: comp_def if_False order_refl)
  qed
  have decr: "list_ex (\<lambda>v. v < lon1) ys \<Longrightarrow>
                sum_list (map (?h \<circ> ?u) ys) < sum_list (map ?h ys)" for ys
  proof (induction ys)
    case Nil
    then show ?case by simp
  next
    case (Cons a ys)
    have all: "sum_list (map (?h \<circ> ?u) ys) \<le> sum_list (map ?h ys)"
      using le by (intro sum_list_mono) simp
    show ?case
    proof (cases "a < lon1")
      case True
      then have "?h (a + 360) < ?h a" by (rule turn)
      then have "(?h \<circ> ?u) a < ?h a" using True by (simp only: comp_def if_True)
      then show ?thesis
        unfolding list.map sum_list.Cons using all by (rule add_less_le_mono)
    next
      case False
      then have "list_ex (\<lambda>v. v < lon1) ys" using Cons.prems by simp
      then have "sum_list (map (?h \<circ> ?u) ys) < sum_list (map ?h ys)" by (rule Cons.IH)
      with le [of a] show ?thesis
        unfolding list.map sum_list.Cons by (rule add_le_less_mono)
    qed
  qed
  show ?case
  proof (cases "list_ex (\<lambda>v. v < lon1) x")
    case True
    have "sum_list (map ?h (map ?u x)) < sum_list (map ?h x)"
      using decr [OF True] by (simp add: comp_def)
    then have "\<exists>x'. fix_latlon_loop FloatType lon1 (map ?u x) = Some x'"
      by (rule less)
    moreover have "(\<lambda>v. if v < lon1 then np_add FloatType v 360 else v) = ?u"
      by (auto simp: np_add_def)
    ultimately show ?thesis
      using True by (subst fix_latlon_loop.simps) simp
  next
    case False
    then show ?thesis by (subst fix_latlon_loop.simps) simp
  qed
qed








end
